theory Spec2Isabelle
  imports Complex_Main "HOL-Library.Word" "HOL-Library.Log_Nat"
begin

section \<open>Data model\<close>

text \<open>
  The images of \<^verbatim>\<open>compare_data.py\<close> are two-dimensional numpy arrays of dtype uint8
  (\<^verbatim>\<open>np.array(Image.open(p).convert('L'))\<close>). An array is its shape and its row-major
  buffer. numpy keeps the buffer as long as the shape says; the predicate
  \<open>well_formed\<close> states that invariant, and the operations below read the buffer by
  index only, as numpy does.
\<close>

type_synonym pixel = "8 word"

record ndarray =
  height :: nat
  width :: nat
  data :: "pixel list"

definition well_formed :: "ndarray \<Rightarrow> bool" where
  "well_formed m = (length (data m) = height m * width m)"

text \<open>\<^verbatim>\<open>m.shape\<close> and \<^verbatim>\<open>m.size\<close>.\<close>

definition shape :: "ndarray \<Rightarrow> nat \<times> nat" where
  "shape m = (height m, width m)"

definition size_nd :: "ndarray \<Rightarrow> nat" where
  "size_nd m = height m * width m"

text \<open>\<^verbatim>\<open>m[y, x]\<close>, row-major.\<close>

definition px :: "ndarray \<Rightarrow> nat \<Rightarrow> nat \<Rightarrow> pixel" where
  "px m y x = data m ! (y * width m + x)"

text \<open>The array of shape \<open>(h, w)\<close> whose element at \<open>[y, x]\<close> is \<open>f y x\<close>.\<close>

definition ndarray_of :: "nat \<Rightarrow> nat \<Rightarrow> (nat \<Rightarrow> nat \<Rightarrow> pixel) \<Rightarrow> ndarray" where
  "ndarray_of h w f =
     \<lparr>height = h, width = w, data = map (\<lambda>i. f (i div w) (i mod w)) [0..<h * w]\<rparr>"

text \<open>
  Python floats are IEEE 754 doubles: every arithmetic result is the exact result rounded
  to the nearest number with a significand of 53 bits, a tie going to the even
  significand. \<open>round64\<close> is that rounding on the rationals. The numbers this
  program computes are quotients of pixel counts, means of byte differences and products
  of these and of the threshold by 100, far from the largest and the smallest doubles, so
  overflow and subnormal numbers are left out.
\<close>

text \<open>The exponent \<open>e\<close> of a positive \<open>x\<close>: \<open>2\<^sup>e \<le> x < 2\<^sup>e\<^sup>+\<^sup>1\<close>.\<close>

definition exponent_of :: "rat \<Rightarrow> int" where
  "exponent_of x =
     (case quotient_of x of (p, q) \<Rightarrow>
        let k = bitlen p - bitlen q in if 2 powi k \<le> x then k else k - 1)"

definition round_half_even :: "rat \<Rightarrow> int" where
  "round_half_even z =
     (let f = \<lfloor>z\<rfloor>; r = z - of_int f
      in if r < 1 / 2 then f else if 1 / 2 < r then f + 1 else if even f then f else f + 1)"

definition round64 :: "rat \<Rightarrow> rat" where
  "round64 x =
     (if x = 0 then 0
      else let e = exponent_of \<bar>x\<bar>
           in of_int (round_half_even (x * 2 powi (52 - e))) * 2 powi (e - 52))"

text \<open>
  A float is the rational it denotes, or \<open>NaN\<close>, the value of the float division
  \<open>0 / 0\<close>. Every comparison with \<open>NaN\<close> is false, as in Python.
\<close>

datatype pyfloat = Fin rat | NaN

fun fgt :: "pyfloat \<Rightarrow> pyfloat \<Rightarrow> bool" where
  "fgt (Fin a) (Fin b) = (a > b)"
| "fgt _ _ = False"

fun fge :: "pyfloat \<Rightarrow> pyfloat \<Rightarrow> bool" where
  "fge (Fin a) (Fin b) = (a \<ge> b)"
| "fge _ _ = False"

text \<open>The product of two floats.\<close>

fun fmul :: "pyfloat \<Rightarrow> pyfloat \<Rightarrow> pyfloat" where
  "fmul (Fin a) (Fin b) = Fin (round64 (a * b))"
| "fmul _ _ = NaN"

text \<open>
  \<^verbatim>\<open>matches / total\<close> where \<open>matches\<close> is a numpy integer: both are converted to
  doubles (exactly, for counts below \<open>2\<^sup>5\<^sup>3\<close>) and divided. numpy's true division
  does not raise on a zero divisor. At its only call \<open>matches \<le> total\<close>, so a zero
  divisor means \<open>0 / 0\<close>, which is \<open>NaN\<close>.
\<close>

definition np_true_divide :: "nat \<Rightarrow> nat \<Rightarrow> pyfloat" where
  "np_true_divide m t = (if t = 0 then NaN else Fin (round64 (of_nat m / of_nat t)))"

datatype exn = AttributeError | ValueError | ZeroDivisionError | UnicodeEncodeError

datatype TransformType =
  IDENTICAL | ROTATE_CW | ROTATE_CCW | ROTATE_180 | MIRROR_H | MIRROR_V | UNKNOWN

text \<open>
  The fields of \<^verbatim>\<open>ImageComparator\<close> the engine reads. \<^verbatim>\<open>__init__\<close> sets both images
  to \<^verbatim>\<open>None\<close>; \<^verbatim>\<open>load_images\<close> replaces them by arrays. The threshold is a
  float, held as the rational it denotes.
\<close>

record ImageComparator =
  original_img :: "ndarray option"
  transformed_img :: "ndarray option"
  threshold :: rat

section \<open>numpy operations on two-dimensional arrays\<close>

text \<open>\<^verbatim>\<open>np.transpose(m)\<close>, \<^verbatim>\<open>np.fliplr(m)\<close> = \<^verbatim>\<open>m[:, ::-1]\<close>, \<^verbatim>\<open>np.flipud(m)\<close> = \<^verbatim>\<open>m[::-1, ...]\<close>.\<close>

definition np_transpose :: "ndarray \<Rightarrow> ndarray" where
  "np_transpose m = ndarray_of (width m) (height m) (\<lambda>y x. px m x y)"

definition np_fliplr :: "ndarray \<Rightarrow> ndarray" where
  "np_fliplr m = ndarray_of (height m) (width m) (\<lambda>y x. px m y (width m - 1 - x))"

definition np_flipud :: "ndarray \<Rightarrow> ndarray" where
  "np_flipud m = ndarray_of (height m) (width m) (\<lambda>y x. px m (height m - 1 - y) x)"

text \<open>
  \<^verbatim>\<open>np.rot90(m, k)\<close> with the default axes \<open>(0, 1)\<close>, by the cases of numpy's own
  definition: \<^verbatim>\<open>k %= 4\<close>; \<open>0\<close> returns \<open>m\<close>; \<open>2\<close> flips both axes; \<open>1\<close> is
  \<^verbatim>\<open>transpose(flip(m, 1))\<close>; \<open>3\<close> is \<^verbatim>\<open>flip(transpose(m), 1)\<close>.
\<close>

definition np_rot90 :: "ndarray \<Rightarrow> int \<Rightarrow> ndarray" where
  "np_rot90 m k =
     (let k' = k mod 4 in
      if k' = 0 then m
      else if k' = 2 then np_fliplr (np_flipud m)
      else if k' = 1 then np_transpose (np_fliplr m)
      else np_fliplr (np_transpose m))"

text \<open>
  On \<^verbatim>\<open>None\<close> the three numpy functions raise \<^verbatim>\<open>ValueError\<close>: \<^verbatim>\<open>asanyarray(None)\<close>
  has no dimension.
\<close>

definition on_array :: "(ndarray \<Rightarrow> ndarray) \<Rightarrow> ndarray option \<Rightarrow> exn + ndarray option" where
  "on_array f img = (case img of None \<Rightarrow> Inl ValueError | Some m \<Rightarrow> Inr (Some (f m)))"

section \<open>The transforms\<close>

definition apply_rotate_cw :: "ndarray option \<Rightarrow> exn + ndarray option" where
  "apply_rotate_cw img = on_array (\<lambda>m. np_rot90 m (- 1)) img"

definition apply_rotate_ccw :: "ndarray option \<Rightarrow> exn + ndarray option" where
  "apply_rotate_ccw img = on_array (\<lambda>m. np_rot90 m 1) img"

definition apply_rotate_180 :: "ndarray option \<Rightarrow> exn + ndarray option" where
  "apply_rotate_180 img = on_array (\<lambda>m. np_rot90 m 2) img"

definition apply_mirror_h :: "ndarray option \<Rightarrow> exn + ndarray option" where
  "apply_mirror_h img = on_array np_fliplr img"

definition apply_mirror_v :: "ndarray option \<Rightarrow> exn + ndarray option" where
  "apply_mirror_v img = on_array np_flipud img"

text \<open>Running one fallible step after another: the first exception ends the sequence.\<close>

definition and_then :: "exn + 'a \<Rightarrow> ('a \<Rightarrow> exn + 'b) \<Rightarrow> exn + 'b" where
  "and_then r f = (case r of Inl e \<Rightarrow> Inl e | Inr v \<Rightarrow> f v)"

section \<open>The similarity score\<close>

text \<open>\<^verbatim>\<open>np.sum(img1 == img2)\<close> for two arrays of one shape.\<close>

definition matches :: "ndarray \<Rightarrow> ndarray \<Rightarrow> nat" where
  "matches a b = length (filter (\<lambda>i. data a ! i = data b ! i) [0..<size_nd a])"

text \<open>Reading \<^verbatim>\<open>.shape\<close> of \<^verbatim>\<open>None\<close> raises \<^verbatim>\<open>AttributeError\<close>.\<close>

definition calculate_similarity :: "ndarray option \<Rightarrow> ndarray option \<Rightarrow> exn + pyfloat" where
  "calculate_similarity img1 img2 =
     (case img1 of None \<Rightarrow> Inl AttributeError
      | Some a \<Rightarrow>
         (case img2 of None \<Rightarrow> Inl AttributeError
          | Some b \<Rightarrow>
             if shape a \<noteq> shape b then Inr (Fin 0)
             else Inr (fmul (np_true_divide (matches a b) (size_nd a)) (Fin 100))))"

section \<open>The detection sweep\<close>

datatype status = MATCH | PARTIAL | NO_MATCH

text \<open>What the loop prints for one hypothesis: its status line, or the error caught.\<close>

datatype line = Tested TransformType status pyfloat | Errored TransformType exn

definition transformations ::
  "(TransformType \<times> (ndarray option \<Rightarrow> exn + ndarray option)) list" where
  "transformations =
     [(IDENTICAL, \<lambda>x. Inr x),
      (ROTATE_CW, apply_rotate_cw),
      (ROTATE_CCW, apply_rotate_ccw),
      (ROTATE_180, apply_rotate_180),
      (MIRROR_H, apply_mirror_h),
      (MIRROR_V, apply_mirror_v)]"

text \<open>The local variables of \<^verbatim>\<open>detect_transformation\<close>, and what it has printed.\<close>

record sweep =
  best_match :: TransformType
  best_similarity :: pyfloat
  results :: "(TransformType \<times> pyfloat) list"
  out :: "line list"

definition initial :: sweep where
  "initial = \<lparr>best_match = UNKNOWN, best_similarity = Fin 0, results = [], out = []\<rparr>"

text \<open>The first two statements of the \<^verbatim>\<open>try\<close> block: the only ones that can raise.\<close>

definition hypothesis_similarity ::
  "ImageComparator \<Rightarrow> (ndarray option \<Rightarrow> exn + ndarray option) \<Rightarrow> exn + pyfloat" where
  "hypothesis_similarity s trans_func =
     and_then (trans_func (original_img s)) (\<lambda>transformed.
       calculate_similarity transformed (transformed_img s))"

definition status_of :: "ImageComparator \<Rightarrow> pyfloat \<Rightarrow> status" where
  "status_of s similarity =
     (if fge similarity (fmul (Fin (threshold s)) (Fin 100)) then MATCH
      else if fgt similarity (Fin 50) then PARTIAL
      else NO_MATCH)"

text \<open>
  One iteration: the \<^verbatim>\<open>try\<close> block, and the \<^verbatim>\<open>except Exception\<close> handler, which
  prints the error and lets the loop go on.
\<close>

definition loop_body ::
  "ImageComparator \<Rightarrow> sweep \<Rightarrow> TransformType \<times> (ndarray option \<Rightarrow> exn + ndarray option) \<Rightarrow> sweep" where
  "loop_body s st h =
     (case hypothesis_similarity s (snd h) of
        Inl e \<Rightarrow> st\<lparr>out := out st @ [Errored (fst h) e]\<rparr>
      | Inr similarity \<Rightarrow>
          (let st1 = st\<lparr>results := results st @ [(fst h, similarity)],
                        out := out st @ [Tested (fst h) (status_of s similarity) similarity]\<rparr>
           in if fgt similarity (best_similarity st1)
              then st1\<lparr>best_similarity := similarity, best_match := fst h\<rparr>
              else st1))"

definition run_sweep :: "ImageComparator \<Rightarrow> sweep" where
  "run_sweep s = foldl (loop_body s) initial transformations"

text \<open>
  \<^verbatim>\<open>detect_transformation\<close> returns \<^verbatim>\<open>(best_match, best_similarity, results)\<close>. Here
  every line is taken to be printed; then each exception of the loop is caught inside
  it, and the result is never \<open>Inl\<close>. \<open>detect_transformation_io\<close> below is the same
  function without that assumption.
\<close>

definition detect_transformation ::
  "ImageComparator \<Rightarrow> exn + TransformType \<times> pyfloat \<times> (TransformType \<times> pyfloat) list" where
  "detect_transformation s =
     (let st = run_sweep s in Inr (best_match st, best_similarity st, results st))"







text \<open>
  \<^verbatim>\<open>compare\<close> once \<^verbatim>\<open>load_images\<close> has returned (reading the files is not
  modelled): the detected type it returns, and whether it reports a detected
  transformation (\<^verbatim>\<open>similarity >= self.threshold * 100\<close>).
\<close>

definition compare :: "ImageComparator \<Rightarrow> exn + TransformType \<times> bool" where
  "compare s =
     and_then (detect_transformation s) (\<lambda>(detected_type, similarity, all_results).
       Inr (detected_type, fge similarity (fmul (Fin (threshold s)) (Fin 100))))"

section \<open>The difference map\<close>

text \<open>
  \<^verbatim>\<open>np.abs(a.astype(np.int16) - b.astype(np.int16))\<close>: the differences of two bytes
  lie in \<open>[-255, 255]\<close>, so int16 does not wrap and the values are kept as integers.
\<close>

definition abs_diff :: "ndarray \<Rightarrow> ndarray \<Rightarrow> int list" where
  "abs_diff a b = map (\<lambda>i. \<bar>uint (data a ! i) - uint (data b ! i)\<bar>) [0..<size_nd a]"

text \<open>\<^verbatim>\<open>np.clip(diff * 5, 0, 255).astype(np.uint8)\<close>.\<close>

definition amplify :: "int list \<Rightarrow> pixel list" where
  "amplify diff = map (\<lambda>d. word_of_int (max 0 (min 255 (d * 5)))) diff"

record report =
  diff_amplified :: "pixel list"
  saved :: "(string \<times> pixel list) option"
  non_zero :: nat
  total :: nat
  diff_percentage :: rat
  max_difference :: int
  mean_difference :: rat

text \<open>
  \<^verbatim>\<open>visualize_difference\<close> returns early, with a message, when the shapes differ: the
  result \<open>None\<close>. Otherwise it prints the statistics of \<open>report\<close>. The amplified map
  is saved when \<^verbatim>\<open>save_path\<close> is given and not empty; writing the file is taken to
  succeed. \<^verbatim>\<open>non_zero / total\<close> divides two Python integers and raises on a zero
  divisor. \<^verbatim>\<open>np.mean\<close> adds the differences as doubles (exactly, the sum being
  below \<open>2\<^sup>5\<^sup>3\<close>) and divides by their number.
\<close>

definition visualize_difference ::
  "ImageComparator \<Rightarrow> string option \<Rightarrow> exn + report option" where
  "visualize_difference s save_path =
     (case original_img s of None \<Rightarrow> Inl AttributeError
      | Some a \<Rightarrow>
         (case transformed_img s of None \<Rightarrow> Inl AttributeError
          | Some b \<Rightarrow>
             if shape a \<noteq> shape b then Inr None
             else
               (let diff = abs_diff a b;
                    amplified = amplify diff;
                    nz = length (filter (\<lambda>d. d \<noteq> 0) diff);
                    n = size_nd a
                in if n = 0 then Inl ZeroDivisionError
                   else Inr (Some \<lparr>diff_amplified = amplified,
                                    saved = (case save_path of None \<Rightarrow> None
                                             | Some p \<Rightarrow> if p = [] then None else Some (p, amplified)),
                                    non_zero = nz,
                                    total = n,
                                    diff_percentage =
                                      round64 (round64 (of_nat nz / of_nat n) * 100),
                                    max_difference = Max (set diff),
                                    mean_difference =
                                      round64 (of_int (sum_list diff) / of_nat n)\<rparr>))))"

section \<open>Notions the statements use\<close>

text \<open>
  The results of the hypotheses of \<open>hs\<close> that do not raise, in order: what the loop
  appends to \<^verbatim>\<open>results\<close>.
\<close>

definition scored ::
  "ImageComparator \<Rightarrow> (TransformType \<times> (ndarray option \<Rightarrow> exn + ndarray option)) list
    \<Rightarrow> (TransformType \<times> pyfloat) list" where
  "scored s hs = concat (map (\<lambda>h. case hypothesis_similarity s (snd h) of
        Inl e \<Rightarrow> [] | Inr v \<Rightarrow> [(fst h, v)]) hs)"

text \<open>The update of the running best by one result: \<^verbatim>\<open>if similarity > best_similarity\<close>.\<close>

definition track ::
  "TransformType \<times> pyfloat \<Rightarrow> TransformType \<times> pyfloat \<Rightarrow> TransformType \<times> pyfloat" where
  "track b e = (if fgt (snd e) (snd b) then e else b)"


text \<open>The six hypotheses in the order of their declaration in \<^verbatim>\<open>transformations\<close>.\<close>

definition kinds :: "TransformType list" where
  "kinds = [IDENTICAL, ROTATE_CW, ROTATE_CCW, ROTATE_180, MIRROR_H, MIRROR_V]"

section \<open>Rounding\<close>

lemma exponent_of_bounds:
  assumes "0 < x"
  shows "2 powi (exponent_of x) \<le> x" and "x < 2 powi (exponent_of x + 1)"
proof -
  obtain p q where pq: "quotient_of x = (p, q)" by (cases "quotient_of x")
  then have q: "0 < q" by (rule quotient_of_denom_pos)
  have x: "x = of_int p / of_int q" using pq by (rule quotient_of_div)
  with assms q have p: "0 < p" by (simp add: zero_less_divide_iff)
  let ?k = "bitlen p - bitlen q"
  have bp: "1 \<le> bitlen p" and bq: "1 \<le> bitlen q"
    using p q by (simp_all add: bitlen_alt_def)
  have pl: "(2::rat) powi (bitlen p - 1) \<le> of_int p" and pu: "of_int p < (2::rat) powi bitlen p"
  proof -
    from bitlen_bounds[OF p] have "2 ^ nat (bitlen p - 1) \<le> p" "p < 2 ^ nat (bitlen p)"
      by simp_all
    then have "(of_int (2 ^ nat (bitlen p - 1)) :: rat) \<le> of_int p"
      "(of_int p :: rat) < of_int (2 ^ nat (bitlen p))"
      by (simp_all only: of_int_le_iff of_int_less_iff)
    then show "(2::rat) powi (bitlen p - 1) \<le> of_int p" "of_int p < (2::rat) powi bitlen p"
      using bp by (simp_all add: power_int_def)
  qed
  have ql: "(2::rat) powi (bitlen q - 1) \<le> of_int q" and qu: "of_int q < (2::rat) powi bitlen q"
  proof -
    from bitlen_bounds[OF q] have "2 ^ nat (bitlen q - 1) \<le> q" "q < 2 ^ nat (bitlen q)"
      by simp_all
    then have "(of_int (2 ^ nat (bitlen q - 1)) :: rat) \<le> of_int q"
      "(of_int q :: rat) < of_int (2 ^ nat (bitlen q))"
      by (simp_all only: of_int_le_iff of_int_less_iff)
    then show "(2::rat) powi (bitlen q - 1) \<le> of_int q" "of_int q < (2::rat) powi bitlen q"
      using bq by (simp_all add: power_int_def)
  qed
  have qpos: "(0::rat) < of_int q" using q by simp
  have lower: "(2::rat) powi (?k - 1) \<le> x"
  proof -
    have "(2::rat) powi (?k - 1) * of_int q \<le> 2 powi (?k - 1) * 2 powi bitlen q"
      using qu by (intro mult_left_mono) simp_all
    also have "\<dots> = 2 powi (bitlen p - 1)"
      by (simp flip: power_int_add)
    also have "\<dots> \<le> of_int p" by (rule pl)
    finally show ?thesis using qpos by (simp add: x pos_le_divide_eq)
  qed
  have upper: "x < (2::rat) powi (?k + 1)"
  proof -
    have "of_int p < (2::rat) powi bitlen p" by (rule pu)
    also have "\<dots> = 2 powi (?k + 1) * 2 powi (bitlen q - 1)"
      by (simp flip: power_int_add)
    also have "\<dots> \<le> 2 powi (?k + 1) * of_int q"
      using ql by (intro mult_left_mono) simp_all
    finally show ?thesis using qpos by (simp add: x pos_divide_less_eq)
  qed
  have e: "exponent_of x = (if 2 powi ?k \<le> x then ?k else ?k - 1)"
    by (simp add: exponent_of_def pq Let_def)
  show "2 powi (exponent_of x) \<le> x"
    using lower by (simp add: e)
  show "x < 2 powi (exponent_of x + 1)"
    using upper by (simp add: e not_le)
qed

lemma round_half_even_le:
  assumes "z \<le> of_int N"
  shows "round_half_even z \<le> N"
proof -
  have f: "\<lfloor>z\<rfloor> \<le> N" using assms by (simp add: floor_le_iff) 
  show ?thesis
  proof (cases "\<lfloor>z\<rfloor> = N")
    case True
    then have "z - of_int \<lfloor>z\<rfloor> \<le> 0" using assms by simp
    then have "z - of_int \<lfloor>z\<rfloor> < 1 / 2" by simp
    then show ?thesis using True by (simp add: round_half_even_def Let_def)
  next
    case False
    with f have "\<lfloor>z\<rfloor> + 1 \<le> N" by simp
    then show ?thesis by (simp add: round_half_even_def Let_def)
  qed
qed

lemma round_half_even_nonneg:
  assumes "0 \<le> z"
  shows "0 \<le> round_half_even z"
proof -
  have "0 \<le> \<lfloor>z\<rfloor>" using assms by simp
  then show ?thesis by (simp add: round_half_even_def Let_def)
qed

lemma round64_nonneg:
  assumes "0 \<le> x"
  shows "0 \<le> round64 x"
proof (cases "x = 0")
  case True
  then show ?thesis by (simp add: round64_def)
next
  case False
  let ?e = "exponent_of \<bar>x\<bar>"
  have "0 \<le> x * 2 powi (52 - ?e)" using assms by simp
  then have "0 \<le> round_half_even (x * 2 powi (52 - ?e))" by (rule round_half_even_nonneg)
  then have "(0::rat) \<le> of_int (round_half_even (x * 2 powi (52 - ?e))) * 2 powi (?e - 52)"
    by simp
  then show ?thesis using False by (simp add: round64_def Let_def)
qed

lemma round64_le_nat:
  assumes "0 \<le> x" "x \<le> of_nat c" "c < 2 ^ 53"
  shows "round64 x \<le> of_nat c"
proof (cases "x = 0")
  case True
  then show ?thesis by (simp add: round64_def)
next
  case False
  with assms(1) have pos: "0 < x" by simp
  let ?e = "exponent_of \<bar>x\<bar>"
  have "(2::rat) powi ?e \<le> x" using exponent_of_bounds(1)[of x] pos by simp
  also have "x \<le> of_nat c" by (rule assms(2))
  also have "(of_nat c :: rat) < of_nat (2 ^ 53)" using assms(3) by (simp only: of_nat_less_iff)
  also have "(of_nat (2 ^ 53) :: rat) = 2 powi 53" by simp
  finally have "(2::rat) powi ?e < 2 powi 53" .
  then have "?e < 53" by (rule power_int_le_imp_less_exp[rotated]) simp_all
  then have n: "0 \<le> 52 - ?e" by simp
  let ?n = "nat (52 - ?e)"
  have s: "(2::rat) powi (52 - ?e) = of_int (2 ^ ?n)"
    using n by (simp add: power_int_def)
  have "x * 2 powi (52 - ?e) \<le> of_nat c * 2 powi (52 - ?e)"
    using assms(2) by (intro mult_right_mono) simp_all
  also have "\<dots> = of_int (int c * 2 ^ ?n)" by (simp add: s)
  finally have "round_half_even (x * 2 powi (52 - ?e)) \<le> int c * 2 ^ ?n"
    by (rule round_half_even_le)
  then have "(of_int (round_half_even (x * 2 powi (52 - ?e))) :: rat) \<le> of_int (int c * 2 ^ ?n)"
    by (simp only: of_int_le_iff)
  then have "of_int (round_half_even (x * 2 powi (52 - ?e))) * (2::rat) powi (?e - 52)
               \<le> of_int (int c * 2 ^ ?n) * 2 powi (?e - 52)"
    by (intro mult_right_mono) simp_all
  also have "\<dots> = of_nat c * (2 powi (52 - ?e) * 2 powi (?e - 52))"
    by (simp add: s)
  also have "\<dots> = of_nat c"
    by (simp flip: power_int_add)
  finally show ?thesis using False by (simp add: round64_def Let_def)
qed

section \<open>Arrays by index\<close>

lemma ndarray_of_fields:
  "height (ndarray_of h w f) = h" "width (ndarray_of h w f) = w"
  "length (data (ndarray_of h w f)) = h * w"
  by (simp_all add: ndarray_of_def)

lemma well_formed_ndarray_of: "well_formed (ndarray_of h w f)"
  by (simp add: well_formed_def ndarray_of_fields)

lemma flat_index_less:
  fixes y x h w :: nat
  assumes "y < h" "x < w"
  shows "y * w + x < h * w"
proof -
  have "y * w + x < y * w + w" using assms by simp
  also have "\<dots> = Suc y * w" by simp
  also have "\<dots> \<le> h * w" using assms by (intro mult_le_mono1) simp
  finally show ?thesis .
qed

lemma px_ndarray_of:
  assumes "y < h" "x < w"
  shows "px (ndarray_of h w f) y x = f y x"
proof -
  have "y * w + x < h * w" using assms by (rule flat_index_less)
  then show ?thesis using assms by (simp add: px_def ndarray_of_def)
qed

lemma data_ndarray_of_px:
  assumes "well_formed m"
  shows "ndarray_of (height m) (width m) (px m) = m"
proof -
  have "map (\<lambda>i. data m ! (i div width m * width m + i mod width m)) [0..<height m * width m]
        = map (\<lambda>i. data m ! i) [0..<length (data m)]"
    using assms by (simp add: well_formed_def)
  also have "\<dots> = data m" by (rule map_nth)
  finally show ?thesis
    by (simp add: ndarray_of_def px_def)
qed

lemma ndarray_of_cong:
  assumes "\<And>y x. y < h \<Longrightarrow> x < w \<Longrightarrow> f y x = g y x"
  shows "ndarray_of h w f = ndarray_of h w g"
proof -
  have "f (i div w) (i mod w) = g (i div w) (i mod w)" if "i < h * w" for i
  proof -
    have "0 < w" using that by (cases w) auto
    moreover have "i div w < h" using that by (simp add: less_mult_imp_div_less)
    ultimately show ?thesis using assms by simp
  qed
  then show ?thesis by (simp add: ndarray_of_def)
qed

lemma ndarray_eqI:
  assumes "well_formed a" "well_formed b" "height a = height b" "width a = width b"
    and "\<And>y x. y < height a \<Longrightarrow> x < width a \<Longrightarrow> px a y x = px b y x"
  shows "a = b"
proof -
  have "a = ndarray_of (height a) (width a) (px a)"
    using assms(1) by (simp add: data_ndarray_of_px)
  also have "\<dots> = ndarray_of (height a) (width a) (px b)"
    using assms(5) by (rule ndarray_of_cong)
  also have "\<dots> = b"
    using assms(2,3,4) by (simp add: data_ndarray_of_px)
  finally show ?thesis .
qed

lemma np_transpose_fields:
  "height (np_transpose m) = width m" "width (np_transpose m) = height m"
  "well_formed (np_transpose m)"
  by (simp_all add: np_transpose_def ndarray_of_fields well_formed_ndarray_of)

lemma np_fliplr_fields:
  "height (np_fliplr m) = height m" "width (np_fliplr m) = width m"
  "well_formed (np_fliplr m)"
  by (simp_all add: np_fliplr_def ndarray_of_fields well_formed_ndarray_of)

lemma np_flipud_fields:
  "height (np_flipud m) = height m" "width (np_flipud m) = width m"
  "well_formed (np_flipud m)"
  by (simp_all add: np_flipud_def ndarray_of_fields well_formed_ndarray_of)

lemma px_np_transpose:
  "y < width m \<Longrightarrow> x < height m \<Longrightarrow> px (np_transpose m) y x = px m x y"
  by (simp add: np_transpose_def px_ndarray_of)

lemma px_np_fliplr:
  "y < height m \<Longrightarrow> x < width m \<Longrightarrow> px (np_fliplr m) y x = px m y (width m - 1 - x)"
  by (simp add: np_fliplr_def px_ndarray_of)

lemma px_np_flipud:
  "y < height m \<Longrightarrow> x < width m \<Longrightarrow> px (np_flipud m) y x = px m (height m - 1 - y) x"
  by (simp add: np_flipud_def px_ndarray_of)

lemmas np_fields = np_transpose_fields np_fliplr_fields np_flipud_fields
lemmas px_np = px_np_transpose px_np_fliplr px_np_flipud

lemma flip_index: "(x::nat) < w \<Longrightarrow> w - 1 - x < w" "x < w \<Longrightarrow> w - 1 - (w - 1 - x) = x"
  by simp_all

lemma np_rot90_cases:
  "np_rot90 m (- 1) = np_fliplr (np_transpose m)"
  "np_rot90 m 1 = np_transpose (np_fliplr m)"
  "np_rot90 m 2 = np_fliplr (np_flipud m)"
  by (simp_all add: np_rot90_def)

lemma rot_cw_ccw:
  assumes "well_formed m"
  shows "np_rot90 (np_rot90 m (- 1)) 1 = m"
  using assms
  by (intro ndarray_eqI) (simp_all add: np_rot90_cases np_fields px_np flip_index)

lemma rot_ccw_cw:
  assumes "well_formed m"
  shows "np_rot90 (np_rot90 m 1) (- 1) = m"
  using assms
  by (intro ndarray_eqI) (simp_all add: np_rot90_cases np_fields px_np flip_index)

lemma rot_180_180:
  assumes "well_formed m"
  shows "np_rot90 (np_rot90 m 2) 2 = m"
  using assms
  by (intro ndarray_eqI) (simp_all add: np_rot90_cases np_fields px_np flip_index)

lemma fliplr_fliplr:
  assumes "well_formed m"
  shows "np_fliplr (np_fliplr m) = m"
  using assms
  by (intro ndarray_eqI) (simp_all add: np_fields px_np flip_index)

lemma flipud_flipud:
  assumes "well_formed m"
  shows "np_flipud (np_flipud m) = m"
  using assms
  by (intro ndarray_eqI) (simp_all add: np_fields px_np flip_index)

section \<open>The sweep as a fold over the scored hypotheses\<close>

lemma scored_simps:
  "scored s [] = []"
  "scored s (h # hs) = (case hypothesis_similarity s (snd h) of
        Inl e \<Rightarrow> [] | Inr v \<Rightarrow> [(fst h, v)]) @ scored s hs"
  by (simp_all add: scored_def)

lemma loop_results:
  "results (foldl (loop_body s) st hs) = results st @ scored s hs"
  by (induction hs arbitrary: st)
     (auto simp: scored_simps loop_body_def Let_def split: sum.splits)

lemma loop_best:
  "(best_match (foldl (loop_body s) st hs), best_similarity (foldl (loop_body s) st hs))
     = foldl track (best_match st, best_similarity st) (scored s hs)"
  by (induction hs arbitrary: st)
     (auto simp: scored_simps loop_body_def track_def Let_def split: sum.splits)


lemma scored_kinds:
  "map fst (scored s hs) = map fst (filter (\<lambda>h. \<not> isl (hypothesis_similarity s (snd h))) hs)"
  by (induction hs) (auto simp: scored_simps split: sum.splits)

lemma scored_threshold: "scored (s\<lparr>threshold := t\<rparr>) hs = scored s hs"
  by (simp add: scored_def hypothesis_similarity_def)

lemma detect_eq:
  "detect_transformation s =
     Inr (fst (foldl track (UNKNOWN, Fin 0) (scored s transformations)),
          snd (foldl track (UNKNOWN, Fin 0) (scored s transformations)),
          scored s transformations)"
proof -
  have "(best_match (run_sweep s), best_similarity (run_sweep s))
        = foldl track (UNKNOWN, Fin 0) (scored s transformations)"
    unfolding run_sweep_def by (simp add: loop_best initial_def)
  moreover have "results (run_sweep s) = scored s transformations"
    unfolding run_sweep_def by (simp add: loop_results initial_def)
  ultimately show ?thesis
    by (simp add: detect_transformation_def Let_def prod_eq_iff)
qed

lemma track_simps:
  "fgt (snd e) (snd b) \<Longrightarrow> track b e = e"
  "\<not> fgt (snd e) (snd b) \<Longrightarrow> track b e = b"
  by (simp_all add: track_def)

lemma foldl_track:
  assumes "foldl track (k0, Fin r0) xs = (bk, bs)"
  shows "\<exists>r. bs = Fin r \<and> r0 \<le> r \<and> (\<forall>e\<in>set xs. \<not> fgt (snd e) bs) \<and>
           ((bk = k0 \<and> r = r0) \<or>
            (r0 < r \<and> (\<exists>pre post. xs = pre @ (bk, bs) # post \<and>
                 (\<forall>e\<in>set pre. \<not> fge (snd e) bs))))"
  using assms
proof (induction xs arbitrary: k0 r0)
  case Nil
  then show ?case by simp
next
  case (Cons e xs)
  show ?case
  proof (cases "fgt (snd e) (Fin r0)")
    case True
    then obtain q where q: "snd e = Fin q" "r0 < q"
      by (cases "snd e") auto
    then have e: "e = (fst e, Fin q)" by (simp add: prod_eq_iff)
    from True Cons.prems have "foldl track e xs = (bk, bs)"
      by (simp add: track_simps)
    with e have "foldl track (fst e, Fin q) xs = (bk, bs)"
      by simp
    from Cons.IH[OF this] obtain r where r: "bs = Fin r" "q \<le> r"
      "\<forall>e\<in>set xs. \<not> fgt (snd e) bs"
      "(bk = fst e \<and> r = q) \<or>
         (q < r \<and> (\<exists>pre post. xs = pre @ (bk, bs) # post \<and> (\<forall>e\<in>set pre. \<not> fge (snd e) bs)))"
      by blast
    have a: "\<forall>x\<in>set (e # xs). \<not> fgt (snd x) bs"
      using r(1,2,3) q by auto
    from r(4) have "\<exists>pre post. e # xs = pre @ (bk, bs) # post \<and> (\<forall>e\<in>set pre. \<not> fge (snd e) bs)"
    proof
      assume "bk = fst e \<and> r = q"
      then have "e # xs = [] @ (bk, bs) # xs" using e r(1) by simp
      then show ?thesis by (metis empty_iff list.set(1))
    next
      assume "q < r \<and> (\<exists>pre post. xs = pre @ (bk, bs) # post \<and> (\<forall>e\<in>set pre. \<not> fge (snd e) bs))"
      then obtain pre post where p: "q < r" "xs = pre @ (bk, bs) # post"
        "\<forall>e\<in>set pre. \<not> fge (snd e) bs" by blast
      have "e # xs = (e # pre) @ (bk, bs) # post" using p(2) by simp
      moreover have "\<forall>x\<in>set (e # pre). \<not> fge (snd x) bs"
        using p(1,3) q(1) r(1) by auto
      ultimately show ?thesis by blast
    qed
    with a r(1,2) q(2) show ?thesis
      by (intro exI[of _ r]) auto
  next
    case False
    with Cons.prems have "foldl track (k0, Fin r0) xs = (bk, bs)"
      by (simp add: track_simps)
    from Cons.IH[OF this] obtain r where r: "bs = Fin r" "r0 \<le> r"
      "\<forall>e\<in>set xs. \<not> fgt (snd e) bs"
      "(bk = k0 \<and> r = r0) \<or>
         (r0 < r \<and> (\<exists>pre post. xs = pre @ (bk, bs) # post \<and> (\<forall>e\<in>set pre. \<not> fge (snd e) bs)))"
      by blast
    have le: "\<not> fgt (snd e) bs"
      using False r(1,2) by (cases "snd e") auto
    have "(bk = k0 \<and> r = r0) \<or>
         (r0 < r \<and> (\<exists>pre post. e # xs = pre @ (bk, bs) # post \<and> (\<forall>e\<in>set pre. \<not> fge (snd e) bs)))"
      using r(4)
    proof
      assume "bk = k0 \<and> r = r0"
      then show ?thesis by simp
    next
      assume "r0 < r \<and> (\<exists>pre post. xs = pre @ (bk, bs) # post \<and> (\<forall>e\<in>set pre. \<not> fge (snd e) bs))"
      then obtain pre post where p: "r0 < r" "xs = pre @ (bk, bs) # post"
        "\<forall>e\<in>set pre. \<not> fge (snd e) bs" by blast
      have "e # xs = (e # pre) @ (bk, bs) # post" using p(2) by simp
      moreover have "\<not> fge (snd e) bs"
        using False p(1) r(1) by (cases "snd e") auto
      then have "\<forall>x\<in>set (e # pre). \<not> fge (snd x) bs"
        using p(3) by simp
      ultimately show ?thesis using p(1) by blast
    qed
    with le r(1,2,3) show ?thesis
      by (intro exI[of _ r]) auto
  qed
qed

lemma loaded_no_raise:
  assumes "original_img s = Some a" "transformed_img s = Some b"
  shows "\<forall>h\<in>set transformations. \<not> isl (hypothesis_similarity s (snd h))"
  using assms
  by (simp add: transformations_def hypothesis_similarity_def and_then_def
      apply_rotate_cw_def apply_rotate_ccw_def apply_rotate_180_def apply_mirror_h_def
      apply_mirror_v_def on_array_def calculate_similarity_def)

lemma loaded_kinds:
  assumes "original_img s = Some a" "transformed_img s = Some b"
  shows "map fst (scored s transformations) = kinds"
proof -
  have "filter (\<lambda>h. \<not> isl (hypothesis_similarity s (snd h))) transformations = transformations"
    using loaded_no_raise[OF assms] by (simp add: filter_id_conv)
  then show ?thesis
    by (simp add: scored_kinds) (simp add: transformations_def kinds_def)
qed

section \<open>Counting positions\<close>

lemma flat_all:
  fixes h w :: nat
  shows "(\<forall>i<h * w. P i) = (\<forall>y<h. \<forall>x<w. P (y * w + x))"
proof
  assume "\<forall>i<h * w. P i"
  then show "\<forall>y<h. \<forall>x<w. P (y * w + x)"
    by (simp add: flat_index_less)
next
  assume r: "\<forall>y<h. \<forall>x<w. P (y * w + x)"
  show "\<forall>i<h * w. P i"
  proof (intro allI impI)
    fix i assume i: "i < h * w"
    then have "0 < w" by (cases w) auto
    then have "i mod w < w" by simp
    moreover have "i div w < h" using i by (simp add: less_mult_imp_div_less)
    ultimately have "P (i div w * w + i mod w)" using r by blast
    then show "P i" by simp
  qed
qed

lemma flat_count:
  fixes h w :: nat
  shows "length (filter P [0..<h * w]) = card {(y, x). y < h \<and> x < w \<and> P (y * w + x)}"
proof -
  let ?S = "{(y, x). y < h \<and> x < w \<and> P (y * w + x)}"
  let ?f = "\<lambda>(y, x). y * w + x"
  have "length (filter P [0..<h * w]) = card {i. i < h * w \<and> P ([0..<h * w] ! i)}"
    by (simp add: length_filter_conv_card)
  also have "{i. i < h * w \<and> P ([0..<h * w] ! i)} = {i. i < h * w \<and> P i}"
    by auto
  also have "{i. i < h * w \<and> P i} = ?f ` ?S"
  proof (intro set_eqI iffI)
    fix i assume "i \<in> {i. i < h * w \<and> P i}"
    then have i: "i < h * w" "P i" by simp_all
    then have "0 < w" by (cases w) auto
    then have "i mod w < w" by simp
    moreover have "i div w < h" using i by (simp add: less_mult_imp_div_less)
    ultimately have "(i div w, i mod w) \<in> ?S" using i(2) by simp
    moreover have "?f (i div w, i mod w) = i" by simp
    ultimately show "i \<in> ?f ` ?S" by (metis (no_types, lifting) image_eqI)
  next
    fix i assume "i \<in> ?f ` ?S"
    then show "i \<in> {i. i < h * w \<and> P i}"
      by (auto simp: flat_index_less)
  qed
  also have "card (?f ` ?S) = card ?S"
  proof (rule card_image)
    show "inj_on ?f ?S"
    proof (rule inj_onI)
      fix p q assume p: "p \<in> ?S" and q: "q \<in> ?S" and e: "?f p = ?f q"
      obtain y x where pp: "p = (y, x)" by (cases p)
      obtain y' x' where qq: "q = (y', x')" by (cases q)
      from p q pp qq have lt: "x < w" "x' < w" by simp_all
      from e pp qq have eq: "y * w + x = y' * w + x'" by simp
      have "y = (y * w + x) div w" using lt(1) by simp
      also have "\<dots> = y'" using lt(2) eq by simp
      finally have "y = y'" .
      with eq have "x = x'" by simp
      with \<open>y = y'\<close> pp qq show "p = q" by simp
    qed
  qed
  finally show ?thesis .
qed

lemma matches_count:
  assumes "width a = width b"
  shows "matches a b = card {(y, x). y < height a \<and> x < width a \<and> px a y x = px b y x}"
  using assms by (simp add: matches_def size_nd_def flat_count px_def)

lemma matches_le: "matches a b \<le> size_nd a"
proof -
  have "matches a b \<le> length [0..<size_nd a]"
    unfolding matches_def by (rule length_filter_le)
  then show ?thesis by simp
qed

lemma similarity_range:
  assumes "shape a = shape b" "0 < size_nd a"
  shows "\<exists>r. calculate_similarity (Some a) (Some b) = Inr (Fin r) \<and> 0 \<le> r \<and> r \<le> 100"
proof -
  let ?q = "round64 (of_nat (matches a b) / of_nat (size_nd a))"
  let ?r = "round64 (?q * 100)"
  have eq: "calculate_similarity (Some a) (Some b) = Inr (Fin ?r)"
    using assms by (simp add: calculate_similarity_def np_true_divide_def)
  have "(of_nat (matches a b) :: rat) \<le> of_nat (size_nd a)"
    using matches_le by simp
  then have "(of_nat (matches a b) / of_nat (size_nd a) :: rat) \<le> 1"
    using assms(2) by (simp add: divide_le_eq)
  then have "(of_nat (matches a b) / of_nat (size_nd a) :: rat) \<le> of_nat 1" by simp
  moreover have q0: "(0::rat) \<le> of_nat (matches a b) / of_nat (size_nd a)" by simp
  ultimately have "?q \<le> of_nat 1" by (intro round64_le_nat) simp_all
  then have q1: "?q \<le> 1" by simp
  have q2: "0 \<le> ?q" using q0 by (rule round64_nonneg)
  have "?q * 100 \<le> 1 * 100" using q1 by (rule mult_right_mono) simp
  then have "?q * 100 \<le> of_nat 100" by simp
  moreover have p0: "0 \<le> ?q * 100" using q2 by simp
  ultimately have "?r \<le> of_nat 100" by (intro round64_le_nat) simp_all
  then have "?r \<le> 100" by simp
  moreover have "0 \<le> ?r" using p0 by (rule round64_nonneg)
  ultimately show ?thesis using eq by blast
qed

lemma similarity_empty:
  assumes "shape a = shape b" "size_nd a = 0"
  shows "calculate_similarity (Some a) (Some b) = Inr NaN"
  using assms by (simp add: calculate_similarity_def np_true_divide_def)

section \<open>The difference statistics\<close>

lemma abs_diff_length: "length (abs_diff a b) = size_nd a"
  by (simp add: abs_diff_def)

lemma abs_diff_nth:
  assumes "width a = width b" "y < height a" "x < width a"
  shows "abs_diff a b ! (y * width a + x) = \<bar>uint (px a y x) - uint (px b y x)\<bar>"
proof -
  have "y * width a + x < size_nd a"
    using assms(2,3) by (simp add: size_nd_def flat_index_less)
  then show ?thesis using assms(1) by (simp add: abs_diff_def px_def)
qed

lemma non_zero_none:
  assumes "width a = width b"
  shows "(length (filter (\<lambda>d. d \<noteq> 0) (abs_diff a b)) = 0)
           = (\<forall>y<height a. \<forall>x<width a. px a y x = px b y x)"
proof -
  have "(length (filter (\<lambda>d. d \<noteq> 0) (abs_diff a b)) = 0)
          = (\<forall>i<height a * width a. data a ! i = data b ! i)"
    by (auto simp: abs_diff_def size_nd_def filter_empty_conv word_uint_eq_iff)
  also have "\<dots> = (\<forall>y<height a. \<forall>x<width a. data a ! (y * width a + x) = data b ! (y * width a + x))"
    by (rule flat_all)
  finally show ?thesis using assms by (simp add: px_def)
qed

lemma abs_diff_max:
  assumes "width a = width b" "0 < size_nd a"
  shows "(\<forall>y<height a. \<forall>x<width a. \<bar>uint (px a y x) - uint (px b y x)\<bar> \<le> Max (set (abs_diff a b)))"
    and "(\<exists>y<height a. \<exists>x<width a. Max (set (abs_diff a b)) = \<bar>uint (px a y x) - uint (px b y x)\<bar>)"
proof -
  let ?d = "abs_diff a b"
  have ne: "set ?d \<noteq> {}" using assms(2) abs_diff_length[of a b] by auto
  show "\<forall>y<height a. \<forall>x<width a. \<bar>uint (px a y x) - uint (px b y x)\<bar> \<le> Max (set ?d)"
  proof (intro allI impI)
    fix y x assume yx: "y < height a" "x < width a"
    then have "y * width a + x < length ?d"
      by (simp add: abs_diff_length size_nd_def flat_index_less)
    then have "?d ! (y * width a + x) \<in> set ?d" by (rule nth_mem)
    then have "?d ! (y * width a + x) \<le> Max (set ?d)" by simp
    then show "\<bar>uint (px a y x) - uint (px b y x)\<bar> \<le> Max (set ?d)"
      using abs_diff_nth[OF assms(1) yx] by simp
  qed
  have "Max (set ?d) \<in> set ?d" using ne by simp
  then obtain i where i: "i < length ?d" "?d ! i = Max (set ?d)"
    by (auto simp: in_set_conv_nth)
  then have lt: "i < height a * width a" by (simp add: abs_diff_length size_nd_def)
  then have "0 < width a" by (cases "width a") auto
  then have x: "i mod width a < width a" by simp
  have y: "i div width a < height a" using lt by (simp add: less_mult_imp_div_less)
  have "?d ! (i div width a * width a + i mod width a)
          = \<bar>uint (px a (i div width a) (i mod width a)) - uint (px b (i div width a) (i mod width a))\<bar>"
    using assms(1) y x by (rule abs_diff_nth)
  then have "Max (set ?d) = \<bar>uint (px a (i div width a) (i mod width a)) - uint (px b (i div width a) (i mod width a))\<bar>"
    using i(2) by simp
  with x y show "\<exists>y<height a. \<exists>x<width a. Max (set ?d) = \<bar>uint (px a y x) - uint (px b y x)\<bar>"
    by blast
qed


section \<open>The sweep when printing can fail\<close>





lemma scored_loaded:
  assumes "original_img s = Some a" "transformed_img s = Some b"
  shows "scored s transformations =
     [(IDENTICAL, projr (calculate_similarity (Some a) (Some b))),
      (ROTATE_CW, projr (calculate_similarity (Some (np_rot90 a (- 1))) (Some b))),
      (ROTATE_CCW, projr (calculate_similarity (Some (np_rot90 a 1)) (Some b))),
      (ROTATE_180, projr (calculate_similarity (Some (np_rot90 a 2)) (Some b))),
      (MIRROR_H, projr (calculate_similarity (Some (np_fliplr a)) (Some b))),
      (MIRROR_V, projr (calculate_similarity (Some (np_flipud a)) (Some b)))]"
  using assms
  by (simp add: scored_def transformations_def hypothesis_similarity_def and_then_def
      apply_rotate_cw_def apply_rotate_ccw_def apply_rotate_180_def apply_mirror_h_def
      apply_mirror_v_def on_array_def calculate_similarity_def)

lemma and_then_apply:
  "and_then (on_array f (Some a)) (\<lambda>t. calculate_similarity t (Some b))
     = Inr (projr (calculate_similarity (Some (f a)) (Some b)))"
  by (simp add: and_then_def on_array_def calculate_similarity_def)

section \<open>The best hypothesis\<close>

lemma detect_loaded:
  assumes "original_img s = Some a" "transformed_img s = Some b"
  shows "\<exists>bk bs rs. detect_transformation s = Inr (bk, bs, rs) \<and> map fst rs = kinds \<and>
           foldl track (UNKNOWN, Fin 0) rs = (bk, bs)"
  using loaded_kinds[OF assms] by (simp add: detect_eq)

text \<open>
  Claim C1, as amended. For two loaded images \<^verbatim>\<open>detect_transformation\<close> scores all six
  hypotheses: its results are, in the order of declaration, the similarity of each
  transform of the original with the candidate. The best score it returns is the maximum
  of \<open>0.0\<close> and these six scores: it is at least \<open>0.0\<close> and no hypothesis scored more.
  The running best starts at \<open>0.0\<close>, not below it, and is replaced on a strictly
  greater score only: when some hypothesis scored more than \<open>0.0\<close> the returned pair is
  one of the six results, and when none did (every score is \<open>0.0\<close>) the result is
  \<open>UNKNOWN\<close> with \<open>0.0\<close>, although all six were scored.
\<close>

theorem detect_transformation_best:
  assumes "original_img s = Some a" "transformed_img s = Some b"
  shows "\<exists>v0 v1 v2 v3 v4 v5 bk bs rs.
           calculate_similarity (Some a) (Some b) = Inr v0 \<and>
           and_then (apply_rotate_cw (Some a)) (\<lambda>t. calculate_similarity t (Some b)) = Inr v1 \<and>
           and_then (apply_rotate_ccw (Some a)) (\<lambda>t. calculate_similarity t (Some b)) = Inr v2 \<and>
           and_then (apply_rotate_180 (Some a)) (\<lambda>t. calculate_similarity t (Some b)) = Inr v3 \<and>
           and_then (apply_mirror_h (Some a)) (\<lambda>t. calculate_similarity t (Some b)) = Inr v4 \<and>
           and_then (apply_mirror_v (Some a)) (\<lambda>t. calculate_similarity t (Some b)) = Inr v5 \<and>
           rs = [(IDENTICAL, v0), (ROTATE_CW, v1), (ROTATE_CCW, v2),
                 (ROTATE_180, v3), (MIRROR_H, v4), (MIRROR_V, v5)] \<and>
           detect_transformation s = Inr (bk, bs, rs) \<and>
           fge bs (Fin 0) \<and> (\<forall>e\<in>set rs. \<not> fgt (snd e) bs) \<and>
           (if \<exists>e\<in>set rs. fgt (snd e) (Fin 0) then (bk, bs) \<in> set rs
            else bk = UNKNOWN \<and> bs = Fin 0)"
proof -
  let ?v0 = "projr (calculate_similarity (Some a) (Some b))"
  let ?v1 = "projr (calculate_similarity (Some (np_rot90 a (- 1))) (Some b))"
  let ?v2 = "projr (calculate_similarity (Some (np_rot90 a 1)) (Some b))"
  let ?v3 = "projr (calculate_similarity (Some (np_rot90 a 2)) (Some b))"
  let ?v4 = "projr (calculate_similarity (Some (np_fliplr a)) (Some b))"
  let ?v5 = "projr (calculate_similarity (Some (np_flipud a)) (Some b))"
  let ?rs = "[(IDENTICAL, ?v0), (ROTATE_CW, ?v1), (ROTATE_CCW, ?v2),
              (ROTATE_180, ?v3), (MIRROR_H, ?v4), (MIRROR_V, ?v5)]"
  have e0: "calculate_similarity (Some a) (Some b) = Inr ?v0"
    by (simp add: calculate_similarity_def)
  have e1: "and_then (apply_rotate_cw (Some a)) (\<lambda>t. calculate_similarity t (Some b)) = Inr ?v1"
    unfolding apply_rotate_cw_def by (rule and_then_apply)
  have e2: "and_then (apply_rotate_ccw (Some a)) (\<lambda>t. calculate_similarity t (Some b)) = Inr ?v2"
    unfolding apply_rotate_ccw_def by (rule and_then_apply)
  have e3: "and_then (apply_rotate_180 (Some a)) (\<lambda>t. calculate_similarity t (Some b)) = Inr ?v3"
    unfolding apply_rotate_180_def by (rule and_then_apply)
  have e4: "and_then (apply_mirror_h (Some a)) (\<lambda>t. calculate_similarity t (Some b)) = Inr ?v4"
    unfolding apply_mirror_h_def by (rule and_then_apply)
  have e5: "and_then (apply_mirror_v (Some a)) (\<lambda>t. calculate_similarity t (Some b)) = Inr ?v5"
    unfolding apply_mirror_v_def by (rule and_then_apply)
  have sc: "scored s transformations = ?rs"
    using assms by (rule scored_loaded)
  obtain bk bs where t: "foldl track (UNKNOWN, Fin 0) ?rs = (bk, bs)"
    by (cases "foldl track (UNKNOWN, Fin 0) ?rs")
  have d: "detect_transformation s = Inr (bk, bs, ?rs)"
    by (simp only: detect_eq sc t fst_conv snd_conv)
  from foldl_track[OF t] obtain r where
    r: "bs = Fin r" "0 \<le> r" "\<forall>e\<in>set ?rs. \<not> fgt (snd e) bs"
       "(bk = UNKNOWN \<and> r = 0) \<or>
        (0 < r \<and> (\<exists>pre post. ?rs = pre @ (bk, bs) # post \<and> (\<forall>e\<in>set pre. \<not> fge (snd e) bs)))"
    by blast
  have c: "if \<exists>e\<in>set ?rs. fgt (snd e) (Fin 0) then (bk, bs) \<in> set ?rs
        else bk = UNKNOWN \<and> bs = Fin 0"
    using r(4)
  proof
    assume u: "bk = UNKNOWN \<and> r = 0"
    then have "\<not> (\<exists>e\<in>set ?rs. fgt (snd e) (Fin 0))" using r(1,3) by simp
    then show ?thesis using u r(1) by simp
  next
    assume "0 < r \<and> (\<exists>pre post. ?rs = pre @ (bk, bs) # post \<and> (\<forall>e\<in>set pre. \<not> fge (snd e) bs))"
    then obtain pre post where p: "0 < r" "?rs = pre @ (bk, bs) # post" by blast
    have "(bk, bs) \<in> set (pre @ (bk, bs) # post)" by simp
    then have m: "(bk, bs) \<in> set ?rs" by (simp only: p(2)[symmetric])
    moreover have "fgt (snd (bk, bs)) (Fin 0)" using p(1) r(1) by simp
    ultimately have "\<exists>e\<in>set ?rs. fgt (snd e) (Fin 0)" by blast
    then show ?thesis using m by (simp only: if_True)
  qed
  have g: "fge bs (Fin 0)" using r(1,2) by simp
  from e0 e1 e2 e3 e4 e5 d g r(3) c show ?thesis by blast
qed

text \<open>
  The theorem of C1 at a \<open>2 \<times> 2\<close> image and its clockwise rotation: with the six
  scores computed, the theorem leaves one result, \<open>ROTATE_CW\<close> with the score 100.
\<close>

theorem detect_transformation_best_witness:
  "detect_transformation
     \<lparr>original_img = Some \<lparr>height = 2, width = 2, data = [1, 2, 3, 4]\<rparr>,
      transformed_img = Some \<lparr>height = 2, width = 2, data = [3, 1, 4, 2]\<rparr>,
      threshold = 95 / 100\<rparr>
   = Inr (ROTATE_CW, Fin 100,
          [(IDENTICAL, Fin 0), (ROTATE_CW, Fin 100), (ROTATE_CCW, Fin 0),
           (ROTATE_180, Fin 0), (MIRROR_H, Fin 50), (MIRROR_V, Fin 50)])"
proof -
  let ?a = "\<lparr>height = 2, width = 2, data = [1, 2, 3, 4]\<rparr> :: ndarray"
  let ?b = "\<lparr>height = 2, width = 2, data = [3, 1, 4, 2]\<rparr> :: ndarray"
  let ?s = "\<lparr>original_img = Some ?a, transformed_img = Some ?b, threshold = 95 / 100\<rparr>"
  have l: "original_img ?s = Some ?a" "transformed_img ?s = Some ?b" by simp_all
  have c0: "calculate_similarity (Some ?a) (Some ?b) = Inr (Fin 0)"
    by code_simp
  have c1: "and_then (apply_rotate_cw (Some ?a)) (\<lambda>t. calculate_similarity t (Some ?b)) = Inr (Fin 100)"
    by code_simp
  have c2: "and_then (apply_rotate_ccw (Some ?a)) (\<lambda>t. calculate_similarity t (Some ?b)) = Inr (Fin 0)"
    by code_simp
  have c3: "and_then (apply_rotate_180 (Some ?a)) (\<lambda>t. calculate_similarity t (Some ?b)) = Inr (Fin 0)"
    by code_simp
  have c4: "and_then (apply_mirror_h (Some ?a)) (\<lambda>t. calculate_similarity t (Some ?b)) = Inr (Fin 50)"
    by code_simp
  have c5: "and_then (apply_mirror_v (Some ?a)) (\<lambda>t. calculate_similarity t (Some ?b)) = Inr (Fin 50)"
    by code_simp
  from detect_transformation_best[OF l] obtain v0 v1 v2 v3 v4 v5 bk bs rs where
    v: "calculate_similarity (Some ?a) (Some ?b) = Inr v0"
       "and_then (apply_rotate_cw (Some ?a)) (\<lambda>t. calculate_similarity t (Some ?b)) = Inr v1"
       "and_then (apply_rotate_ccw (Some ?a)) (\<lambda>t. calculate_similarity t (Some ?b)) = Inr v2"
       "and_then (apply_rotate_180 (Some ?a)) (\<lambda>t. calculate_similarity t (Some ?b)) = Inr v3"
       "and_then (apply_mirror_h (Some ?a)) (\<lambda>t. calculate_similarity t (Some ?b)) = Inr v4"
       "and_then (apply_mirror_v (Some ?a)) (\<lambda>t. calculate_similarity t (Some ?b)) = Inr v5"
    and rs: "rs = [(IDENTICAL, v0), (ROTATE_CW, v1), (ROTATE_CCW, v2),
                   (ROTATE_180, v3), (MIRROR_H, v4), (MIRROR_V, v5)]"
    and d: "detect_transformation ?s = Inr (bk, bs, rs)"
    and ub: "\<forall>e\<in>set rs. \<not> fgt (snd e) bs"
    and at: "if \<exists>e\<in>set rs. fgt (snd e) (Fin 0) then (bk, bs) \<in> set rs
             else bk = UNKNOWN \<and> bs = Fin 0"
    by blast
  from v c0 c1 c2 c3 c4 c5 have
    "v0 = Fin 0" "v1 = Fin 100" "v2 = Fin 0" "v3 = Fin 0" "v4 = Fin 50" "v5 = Fin 50"
    by simp_all
  with rs have rs': "rs = [(IDENTICAL, Fin 0), (ROTATE_CW, Fin 100), (ROTATE_CCW, Fin 0),
                           (ROTATE_180, Fin 0), (MIRROR_H, Fin 50), (MIRROR_V, Fin 50)]"
    by simp
  have "\<exists>e\<in>set rs. fgt (snd e) (Fin 0)" unfolding rs' by simp
  with at have m: "(bk, bs) \<in> set rs" by simp
  from ub have "\<not> fgt (Fin 100) bs" unfolding rs' by simp
  with m have "bk = ROTATE_CW \<and> bs = Fin 100" unfolding rs' by auto
  with d rs' show ?thesis by simp
qed

text \<open>
  Claim C1 as stated fails where every hypothesis scores \<open>0.0\<close>: the six hypotheses are
  all scored, the first of them attains the maximum, and the result is \<open>UNKNOWN\<close>.
\<close>

theorem detect_transformation_all_zero:
  "detect_transformation
     \<lparr>original_img = Some \<lparr>height = 1, width = 1, data = [0]\<rparr>,
      transformed_img = Some \<lparr>height = 1, width = 1, data = [1]\<rparr>,
      threshold = 95 / 100\<rparr>
   = Inr (UNKNOWN, Fin 0,
          [(IDENTICAL, Fin 0), (ROTATE_CW, Fin 0), (ROTATE_CCW, Fin 0),
           (ROTATE_180, Fin 0), (MIRROR_H, Fin 0), (MIRROR_V, Fin 0)])"
  by code_simp

section \<open>The order of the sweep and its ties\<close>

text \<open>
  Claim C2, as amended. For two loaded images the results list the six hypotheses in the
  order of their declaration. A returned hypothesis other than \<open>UNKNOWN\<close> stands in the
  results with the best score; no earlier result has a score greater than or equal to
  it, and no later result has a greater one: of the hypotheses that share a best score
  above \<open>0.0\<close> the earliest declared is returned. \<open>UNKNOWN\<close> is returned, with
  \<open>0.0\<close>, exactly when no hypothesis scored more than \<open>0.0\<close>; then the six share
  the best score and none of them is returned. One iteration replaces the running best
  exactly when the new score is strictly greater.
\<close>

theorem detect_transformation_tie_break:
  assumes "original_img s = Some a" "transformed_img s = Some b"
  shows "(\<exists>bk bs rs. detect_transformation s = Inr (bk, bs, rs) \<and> map fst rs = kinds \<and>
           (bk \<noteq> UNKNOWN \<longrightarrow>
              (\<exists>pre post. rs = pre @ (bk, bs) # post \<and>
                 (\<forall>e\<in>set pre. \<not> fge (snd e) bs) \<and> (\<forall>e\<in>set post. \<not> fgt (snd e) bs))) \<and>
           (bk = UNKNOWN) = (bs = Fin 0 \<and> (\<forall>e\<in>set rs. \<not> fgt (snd e) (Fin 0))))
       \<and> (hypothesis_similarity s (snd h) = Inr v \<longrightarrow>
            best_match (loop_body s st h)
              = (if fgt v (best_similarity st) then fst h else best_match st) \<and>
            best_similarity (loop_body s st h)
              = (if fgt v (best_similarity st) then v else best_similarity st))"
proof -
  from detect_loaded[OF assms] obtain bk bs rs where
    d: "detect_transformation s = Inr (bk, bs, rs)" "map fst rs = kinds"
       "foldl track (UNKNOWN, Fin 0) rs = (bk, bs)"
    by blast
  from foldl_track[OF d(3)] obtain r where
    r: "bs = Fin r" "0 \<le> r" "\<forall>e\<in>set rs. \<not> fgt (snd e) bs"
       "(bk = UNKNOWN \<and> r = 0) \<or>
        (0 < r \<and> (\<exists>pre post. rs = pre @ (bk, bs) # post \<and> (\<forall>e\<in>set pre. \<not> fge (snd e) bs)))"
    by blast
  have "bk \<noteq> UNKNOWN \<longrightarrow>
          (\<exists>pre post. rs = pre @ (bk, bs) # post \<and>
             (\<forall>e\<in>set pre. \<not> fge (snd e) bs) \<and> (\<forall>e\<in>set post. \<not> fgt (snd e) bs))"
  proof
    assume "bk \<noteq> UNKNOWN"
    with r(4) obtain pre post where p: "rs = pre @ (bk, bs) # post"
      "\<forall>e\<in>set pre. \<not> fge (snd e) bs" by blast
    from r(3) p(1) have "\<forall>e\<in>set post. \<not> fgt (snd e) bs" by simp
    with p show "\<exists>pre post. rs = pre @ (bk, bs) # post \<and>
             (\<forall>e\<in>set pre. \<not> fge (snd e) bs) \<and> (\<forall>e\<in>set post. \<not> fgt (snd e) bs)"
      by blast
  qed
  moreover have "(bk = UNKNOWN) = (bs = Fin 0 \<and> (\<forall>e\<in>set rs. \<not> fgt (snd e) (Fin 0)))"
  proof
    assume u: "bk = UNKNOWN"
    have "bk \<in> set kinds" if "rs = pre @ (bk, bs) # post" for pre post
    proof -
      have "bk \<in> set (map fst rs)" using that by simp
      then show ?thesis using d(2) by simp
    qed
    with u have "\<not> (\<exists>pre post. rs = pre @ (bk, bs) # post)"
      by (auto simp: kinds_def)
    with r(4) have "r = 0" by blast
    with r(1,3) show "bs = Fin 0 \<and> (\<forall>e\<in>set rs. \<not> fgt (snd e) (Fin 0))" by simp
  next
    assume z: "bs = Fin 0 \<and> (\<forall>e\<in>set rs. \<not> fgt (snd e) (Fin 0))"
    with r(1) have "r = 0" by simp
    with r(4) show "bk = UNKNOWN" by simp
  qed
  ultimately have "\<exists>bk bs rs. detect_transformation s = Inr (bk, bs, rs) \<and> map fst rs = kinds \<and>
           (bk \<noteq> UNKNOWN \<longrightarrow>
              (\<exists>pre post. rs = pre @ (bk, bs) # post \<and>
                 (\<forall>e\<in>set pre. \<not> fge (snd e) bs) \<and> (\<forall>e\<in>set post. \<not> fgt (snd e) bs))) \<and>
           (bk = UNKNOWN) = (bs = Fin 0 \<and> (\<forall>e\<in>set rs. \<not> fgt (snd e) (Fin 0)))"
    using d(1,2) by blast
  moreover have "hypothesis_similarity s (snd h) = Inr v \<longrightarrow>
            best_match (loop_body s st h)
              = (if fgt v (best_similarity st) then fst h else best_match st) \<and>
            best_similarity (loop_body s st h)
              = (if fgt v (best_similarity st) then v else best_similarity st)"
    by (simp add: loop_body_def Let_def)
  ultimately show ?thesis by blast
qed

text \<open>
  The theorem of C2 at a \<open>1 \<times> 2\<close> image and its mirror image, which the rotation by
  180 degrees and the horizontal mirror both reproduce: the rotation, declared first, is
  returned. The identity scores \<open>0.0\<close> there and does not replace the initial best.
\<close>

theorem detect_transformation_tie_break_witness:
  "(\<exists>bs rs.
      detect_transformation
        \<lparr>original_img = Some \<lparr>height = 1, width = 2, data = [1, 2]\<rparr>,
         transformed_img = Some \<lparr>height = 1, width = 2, data = [2, 1]\<rparr>,
         threshold = 95 / 100\<rparr> = Inr (ROTATE_180, bs, rs) \<and> map fst rs = kinds \<and>
      (MIRROR_H, bs) \<in> set rs \<and>
      (\<exists>pre post. rs = pre @ (ROTATE_180, bs) # post \<and>
         (\<forall>e\<in>set pre. \<not> fge (snd e) bs) \<and> (\<forall>e\<in>set post. \<not> fgt (snd e) bs)))
   \<and> best_match
        (loop_body
          \<lparr>original_img = Some \<lparr>height = 1, width = 2, data = [1, 2]\<rparr>,
           transformed_img = Some \<lparr>height = 1, width = 2, data = [2, 1]\<rparr>,
           threshold = 95 / 100\<rparr> initial (IDENTICAL, \<lambda>x. Inr x)) = UNKNOWN"
proof -
  let ?a = "\<lparr>height = 1, width = 2, data = [1, 2]\<rparr> :: ndarray"
  let ?b = "\<lparr>height = 1, width = 2, data = [2, 1]\<rparr> :: ndarray"
  let ?s = "\<lparr>original_img = Some ?a, transformed_img = Some ?b, threshold = 95 / 100\<rparr>"
  let ?h = "(IDENTICAL, \<lambda>x :: ndarray option. Inr x :: exn + ndarray option)"
  have l: "original_img ?s = Some ?a" "transformed_img ?s = Some ?b" by simp_all
  have ev: "detect_transformation ?s
      = Inr (ROTATE_180, Fin 100,
             [(IDENTICAL, Fin 0), (ROTATE_CW, Fin 0), (ROTATE_CCW, Fin 0),
              (ROTATE_180, Fin 100), (MIRROR_H, Fin 100), (MIRROR_V, Fin 0)])"
    by code_simp
  have hs: "hypothesis_similarity ?s (snd ?h) = Inr (Fin 0)"
    by code_simp
  note t = detect_transformation_tie_break[OF l, of ?h "Fin 0" initial]
  from t obtain bk bs rs where
    d: "detect_transformation ?s = Inr (bk, bs, rs)" "map fst rs = kinds"
       "bk \<noteq> UNKNOWN \<longrightarrow>
          (\<exists>pre post. rs = pre @ (bk, bs) # post \<and>
             (\<forall>e\<in>set pre. \<not> fge (snd e) bs) \<and> (\<forall>e\<in>set post. \<not> fgt (snd e) bs))"
    by blast
  from d(1) ev have bk: "bk = ROTATE_180" and bs: "bs = Fin 100"
    and rs: "rs = [(IDENTICAL, Fin 0), (ROTATE_CW, Fin 0), (ROTATE_CCW, Fin 0),
              (ROTATE_180, Fin 100), (MIRROR_H, Fin 100), (MIRROR_V, Fin 0)]"
    by simp_all
  from rs bs have m: "(MIRROR_H, bs) \<in> set rs" by simp
  from d(3) bk have p: "\<exists>pre post. rs = pre @ (ROTATE_180, bs) # post \<and>
             (\<forall>e\<in>set pre. \<not> fge (snd e) bs) \<and> (\<forall>e\<in>set post. \<not> fgt (snd e) bs)"
    by simp
  from t hs have "best_match (loop_body ?s initial ?h)
      = (if fgt (Fin 0) (best_similarity initial) then fst ?h else best_match initial)"
    by blast
  then have u: "best_match (loop_body ?s initial ?h) = UNKNOWN"
    by (simp add: initial_def)
  from d(1,2) bk m p have "\<exists>bs rs. detect_transformation ?s = Inr (ROTATE_180, bs, rs) \<and>
      map fst rs = kinds \<and> (MIRROR_H, bs) \<in> set rs \<and>
      (\<exists>pre post. rs = pre @ (ROTATE_180, bs) # post \<and>
         (\<forall>e\<in>set pre. \<not> fge (snd e) bs) \<and> (\<forall>e\<in>set post. \<not> fgt (snd e) bs))"
    by blast
  with u show ?thesis by blast
qed

text \<open>
  Claim C2 as stated fails where the six hypotheses tie at \<open>0.0\<close>: the earliest
  declared of them does not win, the result is \<open>UNKNOWN\<close>.
\<close>

theorem detect_transformation_zero_tie:
  "detect_transformation
     \<lparr>original_img = Some \<lparr>height = 1, width = 2, data = [1, 2]\<rparr>,
      transformed_img = Some \<lparr>height = 1, width = 2, data = [3, 4]\<rparr>,
      threshold = 95 / 100\<rparr>
   = Inr (UNKNOWN, Fin 0,
          [(IDENTICAL, Fin 0), (ROTATE_CW, Fin 0), (ROTATE_CCW, Fin 0),
           (ROTATE_180, Fin 0), (MIRROR_H, Fin 0), (MIRROR_V, Fin 0)])"
  by code_simp

section \<open>Exceptions in the sweep\<close>



text \<open>
  Claim C4, as amended. An exception raised while a hypothesis is applied or scored is
  caught: the iteration prints the error and changes nothing else, so the hypothesis gets
  no entry in the results, and the sweep goes on. The results hold, in order, exactly the
  hypotheses that did not raise. For two loaded images none raises and the results list
  all six hypotheses.
\<close>

theorem detect_transformation_failure_isolation:
  "(\<exists>bk bs rs. detect_transformation s = Inr (bk, bs, rs) \<and>
      map fst rs = map fst (filter (\<lambda>h. \<not> isl (hypothesis_similarity s (snd h))) transformations) \<and>
      (original_img s \<noteq> None \<and> transformed_img s \<noteq> None \<longrightarrow> map fst rs = kinds))
   \<and> (hypothesis_similarity s (snd h) = Inl e \<longrightarrow>
        loop_body s st h = st\<lparr>out := out st @ [Errored (fst h) e]\<rparr>)"
proof -
  have "original_img s \<noteq> None \<and> transformed_img s \<noteq> None \<longrightarrow>
          map fst (scored s transformations) = kinds"
    using loaded_kinds by blast
  then have "\<exists>bk bs rs. detect_transformation s = Inr (bk, bs, rs) \<and>
      map fst rs = map fst (filter (\<lambda>h. \<not> isl (hypothesis_similarity s (snd h))) transformations) \<and>
      (original_img s \<noteq> None \<and> transformed_img s \<noteq> None \<longrightarrow> map fst rs = kinds)"
    by (simp add: detect_eq scored_kinds)
  moreover have "hypothesis_similarity s (snd h) = Inl e \<longrightarrow>
        loop_body s st h = st\<lparr>out := out st @ [Errored (fst h) e]\<rparr>"
    by (simp add: loop_body_def)
  ultimately show ?thesis by blast
qed

text \<open>
  The theorem of C4 at two loaded \<open>1 \<times> 1\<close> images, where the results list the six
  hypotheses, and at a comparator whose original was never loaded, where the clockwise
  rotation raises and its iteration only prints the error.
\<close>

theorem detect_transformation_failure_isolation_witness:
  "(\<exists>bk bs rs.
      detect_transformation
        \<lparr>original_img = Some \<lparr>height = 1, width = 1, data = [7]\<rparr>,
         transformed_img = Some \<lparr>height = 1, width = 1, data = [7]\<rparr>,
         threshold = 95 / 100\<rparr> = Inr (bk, bs, rs) \<and> map fst rs = kinds)
   \<and> loop_body
        \<lparr>original_img = None,
         transformed_img = Some \<lparr>height = 1, width = 1, data = [7]\<rparr>,
         threshold = 95 / 100\<rparr> initial (ROTATE_CW, apply_rotate_cw)
      = initial\<lparr>out := out initial @ [Errored ROTATE_CW ValueError]\<rparr>"
proof -
  let ?a = "\<lparr>height = 1, width = 1, data = [7]\<rparr> :: ndarray"
  let ?s = "\<lparr>original_img = Some ?a, transformed_img = Some ?a, threshold = 95 / 100\<rparr>"
  let ?n = "\<lparr>original_img = None, transformed_img = Some ?a, threshold = 95 / 100\<rparr>"
  let ?h = "(ROTATE_CW, apply_rotate_cw)"
  have l: "original_img ?s \<noteq> None \<and> transformed_img ?s \<noteq> None" by simp
  from detect_transformation_failure_isolation[of ?s] l
  have a: "\<exists>bk bs rs. detect_transformation ?s = Inr (bk, bs, rs) \<and> map fst rs = kinds"
    by blast
  have r: "hypothesis_similarity ?n (snd ?h) = Inl ValueError"
    by (simp add: hypothesis_similarity_def and_then_def apply_rotate_cw_def on_array_def)
  from detect_transformation_failure_isolation[of ?n ?h ValueError initial] r
  have "loop_body ?n initial ?h = initial\<lparr>out := out initial @ [Errored (fst ?h) ValueError]\<rparr>"
    by blast
  then have "loop_body ?n initial ?h = initial\<lparr>out := out initial @ [Errored ROTATE_CW ValueError]\<rparr>"
    by simp
  with a show ?thesis by blast
qed

text \<open>
  Claim C4 as stated fails at a comparator whose original was never loaded: every
  hypothesis raises (the identity when its score reads the shape of \<^verbatim>\<open>None\<close>), and the
  results are empty instead of holding six zero scores.
\<close>

theorem detect_transformation_drops_failures:
  "hypothesis_similarity
     \<lparr>original_img = None,
      transformed_img = Some \<lparr>height = 1, width = 1, data = [7]\<rparr>,
      threshold = 95 / 100\<rparr> (\<lambda>x. Inr x) = Inl AttributeError
   \<and> detect_transformation
     \<lparr>original_img = None,
      transformed_img = Some \<lparr>height = 1, width = 1, data = [7]\<rparr>,
      threshold = 95 / 100\<rparr> = Inr (UNKNOWN, Fin 0, [])"
  by code_simp

section \<open>The threshold\<close>

text \<open>
  Claim C6. The result of \<^verbatim>\<open>detect_transformation\<close> is the same for every threshold:
  the threshold is read for the printed status only. \<^verbatim>\<open>compare\<close> reports a detected
  transformation exactly when the best score of that result is at least the threshold
  times 100, a product of doubles.
\<close>

theorem detect_transformation_threshold_free:
  "detect_transformation (s\<lparr>threshold := t1\<rparr>) = detect_transformation (s\<lparr>threshold := t2\<rparr>)
   \<and> compare (s\<lparr>threshold := t\<rparr>) =
       (case detect_transformation s of
          Inl e \<Rightarrow> Inl e
        | Inr (bk, bs, rs) \<Rightarrow> Inr (bk, fge bs (fmul (Fin t) (Fin 100))))"
proof -
  have d: "detect_transformation (s\<lparr>threshold := u\<rparr>) = detect_transformation s" for u
    by (simp add: detect_eq scored_threshold)
  show ?thesis
    by (simp add: d compare_def and_then_def split: sum.splits prod.splits)
qed

section \<open>The transforms and the score\<close>

text \<open>
  Claim C5, as amended. For two arrays \<^verbatim>\<open>calculate_similarity\<close> raises nothing. It
  returns \<open>0.0\<close> when the two differ in height or in width. When the shapes are equal
  and there is at least one pixel, it returns the double computed from the number of
  positions at which the two arrays hold the same value: that number divided by the
  number of positions, rounded to a double, times 100, rounded again; the values are
  compared for equality, with no tolerance. For two arrays of one shape with no pixel it
  returns \<open>NaN\<close>.
\<close>

theorem calculate_similarity_value:
  "calculate_similarity (Some a) (Some b) =
     Inr (if \<not> (height a = height b \<and> width a = width b) then Fin 0
          else if height a * width a = 0 then NaN
          else Fin (round64
                 (round64
                    (of_nat (card {(y, x). y < height a \<and> x < width a \<and>
                                           data a ! (y * width a + x) = data b ! (y * width b + x)})
                     / of_nat (height a * width a))
                  * 100)))"
proof (cases "shape a \<noteq> shape b")
  case True
  then show ?thesis by (auto simp: calculate_similarity_def shape_def)
next
  case False
  then have w: "width a = width b" and h: "height a = height b" by (simp_all add: shape_def)
  have c: "calculate_similarity (Some a) (Some b)
             = Inr (fmul (np_true_divide (matches a b) (size_nd a)) (Fin 100))"
    using False by (simp add: calculate_similarity_def)
  have m: "matches a b = card {(y, x). y < height a \<and> x < width a \<and>
                                       data a ! (y * width a + x) = data b ! (y * width b + x)}"
    using matches_count[OF w] by (simp add: px_def)
  show ?thesis
    unfolding c m np_true_divide_def size_nd_def
    using w h by simp
qed

text \<open>
  Claim C5 as stated fails at two rows of three pixels that agree in one: the score is
  the double 33.33333333333333 and not a third of 100. It fails also at two arrays with
  no pixel, where the score is \<open>NaN\<close>.
\<close>

theorem calculate_similarity_rounds:
  "calculate_similarity (Some \<lparr>height = 1, width = 3, data = [1, 2, 3]\<rparr>)
                        (Some \<lparr>height = 1, width = 3, data = [1, 5, 6]\<rparr>)
     = Inr (Fin (2345624805922133 / 70368744177664))
   \<and> (2345624805922133 / 70368744177664 :: rat) < 1 / 3 * 100
   \<and> calculate_similarity (Some \<lparr>height = 0, width = 0, data = []\<rparr>)
                          (Some \<lparr>height = 0, width = 0, data = []\<rparr>) = Inr NaN"
  by code_simp

text \<open>
  Claim C7. \<^verbatim>\<open>apply_rotate_cw\<close> maps an array of shape \<open>(h, w)\<close> to an array \<open>r\<close> of
  shape \<open>(w, h)\<close> with \<open>r[x, h - 1 - y] = m[y, x]\<close> at every position. The
  \<open>4 \<times> 4\<close> matrix of the numbers 1 to 16 rotates to the matrix with the rows
  13 9 5 1, 14 10 6 2, 15 11 7 3 and 16 12 8 4, and for this pair, with the threshold
  0.95, the sweep returns \<open>ROTATE_CW\<close> with the score 100, which \<^verbatim>\<open>compare\<close> reports
  as detected.
\<close>

theorem apply_rotate_cw_spec:
  "(\<exists>r. apply_rotate_cw (Some m) = Inr (Some r) \<and> height r = width m \<and> width r = height m \<and>
        well_formed r \<and>
        (\<forall>y<height m. \<forall>x<width m. px r x (height m - 1 - y) = px m y x))
   \<and> apply_rotate_cw
        (Some \<lparr>height = 4, width = 4, data = [1, 2, 3, 4, 5, 6, 7, 8, 9, 10, 11, 12, 13, 14, 15, 16]\<rparr>)
      = Inr (Some \<lparr>height = 4, width = 4,
                    data = [13, 9, 5, 1, 14, 10, 6, 2, 15, 11, 7, 3, 16, 12, 8, 4]\<rparr>)
   \<and> (\<exists>rs. detect_transformation
        \<lparr>original_img = Some \<lparr>height = 4, width = 4,
                                data = [1, 2, 3, 4, 5, 6, 7, 8, 9, 10, 11, 12, 13, 14, 15, 16]\<rparr>,
         transformed_img = Some \<lparr>height = 4, width = 4,
                                data = [13, 9, 5, 1, 14, 10, 6, 2, 15, 11, 7, 3, 16, 12, 8, 4]\<rparr>,
         threshold = 95 / 100\<rparr>
      = Inr (ROTATE_CW, Fin 100, rs))
   \<and> compare
        \<lparr>original_img = Some \<lparr>height = 4, width = 4,
                                data = [1, 2, 3, 4, 5, 6, 7, 8, 9, 10, 11, 12, 13, 14, 15, 16]\<rparr>,
         transformed_img = Some \<lparr>height = 4, width = 4,
                                data = [13, 9, 5, 1, 14, 10, 6, 2, 15, 11, 7, 3, 16, 12, 8, 4]\<rparr>,
         threshold = 95 / 100\<rparr>
      = Inr (ROTATE_CW, True)"
proof -
  let ?r = "np_rot90 m (- 1)"
  have "\<forall>y<height m. \<forall>x<width m. px ?r x (height m - 1 - y) = px m y x"
    by (simp add: np_rot90_cases np_fields px_np flip_index)
  then have a: "\<exists>r. apply_rotate_cw (Some m) = Inr (Some r) \<and> height r = width m \<and>
        width r = height m \<and> well_formed r \<and>
        (\<forall>y<height m. \<forall>x<width m. px r x (height m - 1 - y) = px m y x)"
    by (intro exI[of _ ?r])
       (simp add: apply_rotate_cw_def on_array_def np_rot90_cases np_fields)
  have b: "apply_rotate_cw
        (Some \<lparr>height = 4, width = 4, data = [1, 2, 3, 4, 5, 6, 7, 8, 9, 10, 11, 12, 13, 14, 15, 16]\<rparr>)
      = Inr (Some \<lparr>height = 4, width = 4,
                    data = [13, 9, 5, 1, 14, 10, 6, 2, 15, 11, 7, 3, 16, 12, 8, 4]\<rparr>)"
    by code_simp
  have c: "detect_transformation
        \<lparr>original_img = Some \<lparr>height = 4, width = 4,
                                data = [1, 2, 3, 4, 5, 6, 7, 8, 9, 10, 11, 12, 13, 14, 15, 16]\<rparr>,
         transformed_img = Some \<lparr>height = 4, width = 4,
                                data = [13, 9, 5, 1, 14, 10, 6, 2, 15, 11, 7, 3, 16, 12, 8, 4]\<rparr>,
         threshold = 95 / 100\<rparr>
      = Inr (ROTATE_CW, Fin 100, [(IDENTICAL, Fin 0), (ROTATE_CW, Fin 100), (ROTATE_CCW, Fin 0),
              (ROTATE_180, Fin 0), (MIRROR_H, Fin 25), (MIRROR_V, Fin 25)])"
    by code_simp
  have d: "compare
        \<lparr>original_img = Some \<lparr>height = 4, width = 4,
                                data = [1, 2, 3, 4, 5, 6, 7, 8, 9, 10, 11, 12, 13, 14, 15, 16]\<rparr>,
         transformed_img = Some \<lparr>height = 4, width = 4,
                                data = [13, 9, 5, 1, 14, 10, 6, 2, 15, 11, 7, 3, 16, 12, 8, 4]\<rparr>,
         threshold = 95 / 100\<rparr>
      = Inr (ROTATE_CW, True)"
    by code_simp
  from a b c d show ?thesis by blast
qed

text \<open>The theorem of C7 at a \<open>1 \<times> 2\<close> row, which rotates to a \<open>2 \<times> 1\<close> column.\<close>

theorem apply_rotate_cw_spec_witness:
  "\<exists>r. apply_rotate_cw (Some \<lparr>height = 1, width = 2, data = [7, 9]\<rparr>) = Inr (Some r) \<and>
       height r = 2 \<and> width r = 1 \<and> px r 0 0 = 7 \<and> px r 1 0 = 9"
proof -
  let ?m = "\<lparr>height = 1, width = 2, data = [7, 9]\<rparr> :: ndarray"
  from apply_rotate_cw_spec[of ?m] obtain r where
    r: "apply_rotate_cw (Some ?m) = Inr (Some r)" "height r = width ?m" "width r = height ?m"
       "\<forall>y<height ?m. \<forall>x<width ?m. px r x (height ?m - 1 - y) = px ?m y x"
    by blast
  from r(4) have "px r 0 (height ?m - 1 - 0) = px ?m 0 0" "px r 1 (height ?m - 1 - 0) = px ?m 0 1"
    by simp_all
  then have "px r 0 0 = 7" "px r 1 0 = 9" by (simp_all add: px_def)
  with r(1,2,3) show ?thesis by simp
qed

text \<open>
  Claim C8. On every array, of any shape (a single pixel and a single row included),
  the two quarter turns undo each other in both orders, and the half turn and the two
  mirrors are their own inverses.
\<close>

theorem transform_round_trips:
  assumes "well_formed m"
  shows "and_then (apply_rotate_cw (Some m)) apply_rotate_ccw = Inr (Some m)
       \<and> and_then (apply_rotate_ccw (Some m)) apply_rotate_cw = Inr (Some m)
       \<and> and_then (apply_rotate_180 (Some m)) apply_rotate_180 = Inr (Some m)
       \<and> and_then (apply_mirror_h (Some m)) apply_mirror_h = Inr (Some m)
       \<and> and_then (apply_mirror_v (Some m)) apply_mirror_v = Inr (Some m)"
  using assms
  by (simp add: and_then_def apply_rotate_cw_def apply_rotate_ccw_def apply_rotate_180_def
      apply_mirror_h_def apply_mirror_v_def on_array_def
      rot_cw_ccw rot_ccw_cw rot_180_180 fliplr_fliplr flipud_flipud)

text \<open>The theorem of C8 at a row of three pixels.\<close>

theorem transform_round_trips_witness:
  "well_formed \<lparr>height = 1, width = 3, data = [1, 2, 3]\<rparr>
   \<and> and_then (apply_rotate_cw (Some \<lparr>height = 1, width = 3, data = [1, 2, 3]\<rparr>)) apply_rotate_ccw
       = Inr (Some \<lparr>height = 1, width = 3, data = [1, 2, 3]\<rparr>)
   \<and> and_then (apply_rotate_ccw (Some \<lparr>height = 1, width = 3, data = [1, 2, 3]\<rparr>)) apply_rotate_cw
       = Inr (Some \<lparr>height = 1, width = 3, data = [1, 2, 3]\<rparr>)
   \<and> and_then (apply_rotate_180 (Some \<lparr>height = 1, width = 3, data = [1, 2, 3]\<rparr>)) apply_rotate_180
       = Inr (Some \<lparr>height = 1, width = 3, data = [1, 2, 3]\<rparr>)
   \<and> and_then (apply_mirror_h (Some \<lparr>height = 1, width = 3, data = [1, 2, 3]\<rparr>)) apply_mirror_h
       = Inr (Some \<lparr>height = 1, width = 3, data = [1, 2, 3]\<rparr>)
   \<and> and_then (apply_mirror_v (Some \<lparr>height = 1, width = 3, data = [1, 2, 3]\<rparr>)) apply_mirror_v
       = Inr (Some \<lparr>height = 1, width = 3, data = [1, 2, 3]\<rparr>)"
proof -
  have w: "well_formed \<lparr>height = 1, width = 3, data = [1, 2, 3]\<rparr>"
    by (simp add: well_formed_def)
  from w transform_round_trips[OF w] show ?thesis by (rule conjI)
qed

text \<open>
  Claim C10. For two arrays of one shape with at least one pixel the score is a number
  between 0 and 100. The pixel is needed: for two arrays of one shape with no pixel,
  an empty array compared with itself among them, the score is \<open>NaN\<close>.
\<close>

theorem calculate_similarity_range:
  "(shape a = shape b \<and> 0 < size_nd a \<longrightarrow>
      (\<exists>r. calculate_similarity (Some a) (Some b) = Inr (Fin r) \<and> 0 \<le> r \<and> r \<le> 100))
   \<and> (shape a = shape b \<and> size_nd a = 0 \<longrightarrow>
      calculate_similarity (Some a) (Some b) = Inr NaN)"
  using similarity_range[of a b] similarity_empty[of a b] by blast

text \<open>
  The theorem of C10 at two rows of two pixels that agree in one, and at the empty
  array compared with itself.
\<close>

theorem calculate_similarity_range_witness:
  "(\<exists>r. calculate_similarity (Some \<lparr>height = 1, width = 2, data = [1, 2]\<rparr>)
                              (Some \<lparr>height = 1, width = 2, data = [1, 3]\<rparr>) = Inr (Fin r) \<and>
        0 \<le> r \<and> r \<le> 100)
   \<and> calculate_similarity (Some \<lparr>height = 0, width = 0, data = []\<rparr>)
                           (Some \<lparr>height = 0, width = 0, data = []\<rparr>) = Inr NaN"
proof -
  let ?a = "\<lparr>height = 1, width = 2, data = [1, 2]\<rparr> :: ndarray"
  let ?b = "\<lparr>height = 1, width = 2, data = [1, 3]\<rparr> :: ndarray"
  let ?e = "\<lparr>height = 0, width = 0, data = []\<rparr> :: ndarray"
  have h: "shape ?a = shape ?b \<and> 0 < size_nd ?a" by (simp add: shape_def size_nd_def)
  have k: "shape ?e = shape ?e \<and> size_nd ?e = 0" by (simp add: size_nd_def)
  from calculate_similarity_range[of ?a ?b] h
  have "\<exists>r. calculate_similarity (Some ?a) (Some ?b) = Inr (Fin r) \<and> 0 \<le> r \<and> r \<le> 100"
    by blast
  moreover from calculate_similarity_range[of ?e ?e] k
  have "calculate_similarity (Some ?e) (Some ?e) = Inr NaN"
    by blast
  ultimately show ?thesis by blast
qed

section \<open>The difference report\<close>

text \<open>
  Claim C9, as amended. For two loaded images \<^verbatim>\<open>visualize_difference\<close> makes no
  difference map when the shapes differ. When the shapes are equal and there is at least
  one pixel, it takes the absolute difference of the two values at every position; the
  count of differing pixels is the number of its non-zero entries and is zero exactly
  when the two images agree at every position; the maximum is the greatest of these
  differences and the mean is their sum divided by the number of pixels, as a double.
  The amplified map is computed from the same differences and is read by none of the
  statistics.
\<close>

theorem visualize_difference_report:
  assumes "original_img s = Some a" "transformed_img s = Some b"
  shows "(shape a \<noteq> shape b \<longrightarrow> visualize_difference s p = Inr None) \<and>
         (shape a = shape b \<and> 0 < size_nd a \<longrightarrow>
           (\<exists>r. visualize_difference s p = Inr (Some r) \<and> total r = size_nd a \<and>
              length (abs_diff a b) = size_nd a \<and>
              (\<forall>y<height a. \<forall>x<width a.
                  abs_diff a b ! (y * width a + x) = \<bar>uint (px a y x) - uint (px b y x)\<bar>) \<and>
              non_zero r = length (filter (\<lambda>d. d \<noteq> 0) (abs_diff a b)) \<and>
              (non_zero r = 0) = (\<forall>y<height a. \<forall>x<width a. px a y x = px b y x) \<and>
              (\<forall>y<height a. \<forall>x<width a. \<bar>uint (px a y x) - uint (px b y x)\<bar> \<le> max_difference r) \<and>
              (\<exists>y<height a. \<exists>x<width a. max_difference r = \<bar>uint (px a y x) - uint (px b y x)\<bar>) \<and>
              mean_difference r = round64 (of_int (sum_list (abs_diff a b)) / of_nat (size_nd a)) \<and>
              diff_amplified r = amplify (abs_diff a b)))"
proof (intro conjI impI)
  assume "shape a \<noteq> shape b"
  then show "visualize_difference s p = Inr None"
    using assms by (simp add: visualize_difference_def)
next
  assume h: "shape a = shape b \<and> 0 < size_nd a"
  then have w: "width a = width b" and n: "0 < size_nd a" by (simp_all add: shape_def)
  let ?d = "abs_diff a b"
  let ?r = "\<lparr>diff_amplified = amplify ?d,
             saved = (case p of None \<Rightarrow> None
                      | Some q \<Rightarrow> if q = [] then None else Some (q, amplify ?d)),
             non_zero = length (filter (\<lambda>d. d \<noteq> 0) ?d),
             total = size_nd a,
             diff_percentage =
               round64 (round64 (of_nat (length (filter (\<lambda>d. d \<noteq> 0) ?d)) / of_nat (size_nd a)) * 100),
             max_difference = Max (set ?d),
             mean_difference = round64 (of_int (sum_list ?d) / of_nat (size_nd a))\<rparr>"
  have v: "visualize_difference s p = Inr (Some ?r)"
    using assms h by (simp add: visualize_difference_def Let_def)
  have "\<forall>y<height a. \<forall>x<width a.
          abs_diff a b ! (y * width a + x) = \<bar>uint (px a y x) - uint (px b y x)\<bar>"
    using abs_diff_nth[OF w] by blast
  then show "\<exists>r. visualize_difference s p = Inr (Some r) \<and> total r = size_nd a \<and>
              length (abs_diff a b) = size_nd a \<and>
              (\<forall>y<height a. \<forall>x<width a.
                  abs_diff a b ! (y * width a + x) = \<bar>uint (px a y x) - uint (px b y x)\<bar>) \<and>
              non_zero r = length (filter (\<lambda>d. d \<noteq> 0) (abs_diff a b)) \<and>
              (non_zero r = 0) = (\<forall>y<height a. \<forall>x<width a. px a y x = px b y x) \<and>
              (\<forall>y<height a. \<forall>x<width a. \<bar>uint (px a y x) - uint (px b y x)\<bar> \<le> max_difference r) \<and>
              (\<exists>y<height a. \<exists>x<width a. max_difference r = \<bar>uint (px a y x) - uint (px b y x)\<bar>) \<and>
              mean_difference r = round64 (of_int (sum_list (abs_diff a b)) / of_nat (size_nd a)) \<and>
              diff_amplified r = amplify (abs_diff a b)"
    using v abs_diff_length[of a b] non_zero_none[OF w] abs_diff_max[OF w n]
    by (intro exI[of _ ?r]) simp
qed

text \<open>
  The theorem of C9 at two rows of two pixels that differ by 100 in the first: one
  pixel differs, the maximum is 100 and the mean 50, while the amplified map holds 255
  there; and at a row against a column, where no map is made.
\<close>

theorem visualize_difference_report_witness:
  "(\<exists>r. visualize_difference
          \<lparr>original_img = Some \<lparr>height = 1, width = 2, data = [0, 7]\<rparr>,
           transformed_img = Some \<lparr>height = 1, width = 2, data = [100, 7]\<rparr>,
           threshold = 95 / 100\<rparr> None = Inr (Some r) \<and>
        total r = 2 \<and> non_zero r = 1 \<and> 100 \<le> max_difference r \<and> mean_difference r = 50 \<and>
        diff_amplified r = [255, 0])
   \<and> visualize_difference
        \<lparr>original_img = Some \<lparr>height = 1, width = 2, data = [0, 7]\<rparr>,
         transformed_img = Some \<lparr>height = 2, width = 1, data = [0, 7]\<rparr>,
         threshold = 95 / 100\<rparr> None = Inr None"
proof -
  let ?a = "\<lparr>height = 1, width = 2, data = [0, 7]\<rparr> :: ndarray"
  let ?b = "\<lparr>height = 1, width = 2, data = [100, 7]\<rparr> :: ndarray"
  let ?c = "\<lparr>height = 2, width = 1, data = [0, 7]\<rparr> :: ndarray"
  let ?s = "\<lparr>original_img = Some ?a, transformed_img = Some ?b, threshold = 95 / 100\<rparr>"
  let ?t = "\<lparr>original_img = Some ?a, transformed_img = Some ?c, threshold = 95 / 100\<rparr>"
  have d: "abs_diff ?a ?b = [100, 0]" by code_simp
  have am: "amplify [100, 0] = [255, 0]" by code_simp
  have h: "shape ?a = shape ?b \<and> 0 < size_nd ?a" by (simp add: shape_def size_nd_def)
  have k: "shape ?a \<noteq> shape ?c" by (simp add: shape_def)
  have l: "original_img ?s = Some ?a" "transformed_img ?s = Some ?b" by simp_all
  have m: "original_img ?t = Some ?a" "transformed_img ?t = Some ?c" by simp_all
  from visualize_difference_report[OF l, of None] h obtain r where
    r: "visualize_difference ?s None = Inr (Some r)" "total r = size_nd ?a"
       "non_zero r = length (filter (\<lambda>d. d \<noteq> 0) (abs_diff ?a ?b))"
       "\<forall>y<height ?a. \<forall>x<width ?a. \<bar>uint (px ?a y x) - uint (px ?b y x)\<bar> \<le> max_difference r"
       "mean_difference r = round64 (of_int (sum_list (abs_diff ?a ?b)) / of_nat (size_nd ?a))"
       "diff_amplified r = amplify (abs_diff ?a ?b)"
    by blast
  from r(4) have "\<bar>uint (px ?a 0 0) - uint (px ?b 0 0)\<bar> \<le> max_difference r" by simp
  then have mx: "100 \<le> max_difference r" by (simp add: px_def)
  from r(2) have t: "total r = 2" by (simp add: size_nd_def)
  from r(3) d have nz: "non_zero r = 1" by simp
  have "round64 (of_int (sum_list [100, 0]) / of_nat (size_nd ?a)) = 50" by code_simp
  with r(5) d have mn: "mean_difference r = 50" by simp
  from r(6) d am have da: "diff_amplified r = [255, 0]" by simp
  from visualize_difference_report[OF m, of None] k
  have "visualize_difference ?t None = Inr None" by blast
  with r(1) t nz mx mn da show ?thesis by blast
qed

text \<open>
  Claim C9 as stated fails at two arrays of one shape with no pixel: the percentage of
  differing pixels divides by the pixel count, and the call raises
  \<^verbatim>\<open>ZeroDivisionError\<close> instead of reporting statistics.
\<close>

theorem visualize_difference_empty:
  "visualize_difference
     \<lparr>original_img = Some \<lparr>height = 0, width = 0, data = []\<rparr>,
      transformed_img = Some \<lparr>height = 0, width = 0, data = []\<rparr>,
      threshold = 95 / 100\<rparr> None = Inl ZeroDivisionError"
  by (simp add: visualize_difference_def shape_def size_nd_def Let_def)

end
